theory Spec2Isabelle
  imports Complex_Main
begin

section \<open>Python strings\<close>

text \<open>
  A Python \<open>str\<close> is a sequence of Unicode code points, and \<open>len\<close> counts code points.
  The model is a list of code point numbers; \<open>str\<close> writes an ASCII literal.
\<close>

type_synonym pystr = "nat list"

definition str :: "string \<Rightarrow> pystr" where
  "str s = map of_char s"

text \<open>
  \<open>str.isspace\<close>, \<open>str.strip()\<close> and the \<open>\s\<close> of a \<open>str\<close> pattern share one table of
  whitespace code points in CPython: U+0009..U+000D, U+001C..U+0020, U+0085, U+00A0, U+1680,
  U+2000..U+200A, U+2028, U+2029, U+202F, U+205F, U+3000.
\<close>

definition isspace :: "nat \<Rightarrow> bool" where
  "isspace c \<longleftrightarrow>
     (9 \<le> c \<and> c \<le> 13) \<or> (28 \<le> c \<and> c \<le> 32) \<or> c = 133 \<or> c = 160 \<or> c = 5760 \<or>
     (8192 \<le> c \<and> c \<le> 8202) \<or> c = 8232 \<or> c = 8233 \<or> c = 8239 \<or> c = 8287 \<or> c = 12288"

definition strip :: "pystr \<Rightarrow> pystr" where
  "strip s = rev (dropWhile isspace (rev (dropWhile isspace s)))"

text \<open>\<open>s.replace(old, new)\<close> for a one-character \<open>old\<close>.\<close>

definition replace :: "nat \<Rightarrow> pystr \<Rightarrow> pystr \<Rightarrow> pystr" where
  "replace old new s = concat (map (\<lambda>c. if c = old then new else [c]) s)"

text \<open>
  \<open>html.escape(s)\<close> with its default \<open>quote=True\<close>: the ampersand is replaced first, then
  \<open><\<close>, \<open>>\<close>, the double quote (code point 34) and the apostrophe (code point 39).
\<close>

definition html_escape :: "pystr \<Rightarrow> pystr" where
  "html_escape s =
     replace 39 (str ''&#x27;'')
       (replace 34 (str ''&quot;'')
         (replace (of_char CHR ''>'') (str ''&gt;'')
           (replace (of_char CHR ''<'') (str ''&lt;'')
             (replace (of_char CHR ''&'') (str ''&amp;'') s))))"

section \<open>Regular expressions\<close>

text \<open>
  The patterns of the module use character classes, concatenation, \<open>+\<close>, \<open>{m,n}\<close> and
  \<open>{m,}\<close>. A class is a predicate on code points. Matching is by derivatives; whether
  \<open>re.match\<close> or \<open>re.search\<close> finds a match depends only on the language of the pattern.
\<close>

datatype rexp =
  Zero
  | One
  | Atom "nat \<Rightarrow> bool"
  | Alt rexp rexp
  | Seq rexp rexp
  | Star rexp

fun nullable :: "rexp \<Rightarrow> bool" where
  "nullable Zero = False"
| "nullable One = True"
| "nullable (Atom P) = False"
| "nullable (Alt r s) = (nullable r \<or> nullable s)"
| "nullable (Seq r s) = (nullable r \<and> nullable s)"
| "nullable (Star r) = True"

fun deriv :: "nat \<Rightarrow> rexp \<Rightarrow> rexp" where
  "deriv c Zero = Zero"
| "deriv c One = Zero"
| "deriv c (Atom P) = (if P c then One else Zero)"
| "deriv c (Alt r s) = Alt (deriv c r) (deriv c s)"
| "deriv c (Seq r s) =
     (if nullable r then Alt (Seq (deriv c r) s) (deriv c s) else Seq (deriv c r) s)"
| "deriv c (Star r) = Seq (deriv c r) (Star r)"

fun matches :: "rexp \<Rightarrow> pystr \<Rightarrow> bool" where
  "matches r [] = nullable r"
| "matches r (c # cs) = matches (deriv c r) cs"

text \<open>Some prefix of the string is in the language: a pattern with no anchor at its end.\<close>

fun matches_prefix :: "rexp \<Rightarrow> pystr \<Rightarrow> bool" where
  "matches_prefix r [] = nullable r"
| "matches_prefix r (c # cs) = (nullable r \<or> matches_prefix (deriv c r) cs)"

definition Lit :: "nat \<Rightarrow> rexp" where
  "Lit c = Atom (\<lambda>x. x = c)"

definition Plus :: "rexp \<Rightarrow> rexp" where
  "Plus r = Seq r (Star r)"

fun Rep :: "nat \<Rightarrow> rexp \<Rightarrow> rexp" where
  "Rep 0 r = One"
| "Rep (Suc n) r = Seq r (Rep n r)"

fun Upto :: "nat \<Rightarrow> rexp \<Rightarrow> rexp" where
  "Upto 0 r = One"
| "Upto (Suc n) r = Alt One (Seq r (Upto n r))"

text \<open>\<open>r{m,n}\<close> and \<open>r{m,}\<close>.\<close>

definition Between :: "nat \<Rightarrow> nat \<Rightarrow> rexp \<Rightarrow> rexp" where
  "Between m n r = Seq (Rep m r) (Upto (n - m) r)"

definition AtLeast :: "nat \<Rightarrow> rexp \<Rightarrow> rexp" where
  "AtLeast m r = Seq (Rep m r) (Star r)"

fun Word :: "pystr \<Rightarrow> rexp" where
  "Word [] = One"
| "Word (c # cs) = Seq (Lit c) (Word cs)"

text \<open>
  \<open>re.match(r'^R$', s)\<close> finds a match when \<open>s\<close> is in the language of \<open>R\<close>, and also when
  \<open>s\<close> ends in a newline and the text before that newline is in the language: without
  \<open>re.MULTILINE\<close>, \<open>$\<close> matches at the end of the string and just before a newline that is
  the last character.
\<close>

definition re_match :: "rexp \<Rightarrow> pystr \<Rightarrow> bool" where
  "re_match r s \<longleftrightarrow> matches r s \<or> (s \<noteq> [] \<and> last s = 10 \<and> matches r (butlast s))"

text \<open>\<open>re.search(R, s)\<close> for a pattern without anchors: a match may start anywhere.\<close>

fun re_search :: "rexp \<Rightarrow> pystr \<Rightarrow> bool" where
  "re_search r [] = nullable r"
| "re_search r (c # cs) = (matches_prefix r (c # cs) \<or> re_search r cs)"

text \<open>The language of a pattern, against which the matcher is verified.\<close>

definition conc :: "pystr set \<Rightarrow> pystr set \<Rightarrow> pystr set" where
  "conc A B = {u @ v |u v. u \<in> A \<and> v \<in> B}"

inductive_set star :: "pystr set \<Rightarrow> pystr set" for A :: "pystr set" where
  star_nil: "[] \<in> star A"
| star_app: "u \<in> A \<Longrightarrow> v \<in> star A \<Longrightarrow> u @ v \<in> star A"

fun lang :: "rexp \<Rightarrow> pystr set" where
  "lang Zero = {}"
| "lang One = {[]}"
| "lang (Atom P) = {[c] |c. P c}"
| "lang (Alt r s) = lang r \<union> lang s"
| "lang (Seq r s) = conc (lang r) (lang s)"
| "lang (Star r) = star (lang r)"

section \<open>Character classes of the module's patterns\<close>

definition ascii_lower :: "nat \<Rightarrow> bool" where
  "ascii_lower c \<longleftrightarrow> 97 \<le> c \<and> c \<le> 122"

definition ascii_upper :: "nat \<Rightarrow> bool" where
  "ascii_upper c \<longleftrightarrow> 65 \<le> c \<and> c \<le> 90"

definition ascii_digit :: "nat \<Rightarrow> bool" where
  "ascii_digit c \<longleftrightarrow> 48 \<le> c \<and> c \<le> 57"

definition ascii_letter :: "nat \<Rightarrow> bool" where
  "ascii_letter c \<longleftrightarrow> ascii_lower c \<or> ascii_upper c"

definition alnum :: "nat \<Rightarrow> bool" where
  "alnum c \<longleftrightarrow> ascii_letter c \<or> ascii_digit c"

text \<open>\<open>[a-zA-Z0-9._%+-]\<close>\<close>

definition email_local_char :: "nat \<Rightarrow> bool" where
  "email_local_char c \<longleftrightarrow> alnum c \<or> c \<in> set (str ''._%+-'')"

text \<open>\<open>[a-zA-Z0-9.-]\<close>\<close>

definition email_domain_char :: "nat \<Rightarrow> bool" where
  "email_domain_char c \<longleftrightarrow> alnum c \<or> c \<in> set (str ''.-'')"

text \<open>\<open>^[a-zA-Z0-9._%+-]+@[a-zA-Z0-9.-]+\.[a-zA-Z]{2,}$\<close>\<close>

definition email_pattern :: rexp where
  "email_pattern =
     Seq (Plus (Atom email_local_char))
       (Seq (Lit (of_char CHR ''@''))
         (Seq (Plus (Atom email_domain_char))
           (Seq (Lit (of_char CHR ''.'')) (AtLeast 2 (Atom ascii_letter)))))"

text \<open>
  The twelve Turkish letters of the full-name class, in the order of the source:
  U+011F, U+00FC, U+015F, U+0131, U+00F6, U+00E7, U+011E, U+00DC, U+015E, U+0130, U+00D6,
  U+00C7.
\<close>

definition turkish_letters :: "nat list" where
  "turkish_letters = [287, 252, 351, 305, 246, 231, 286, 220, 350, 304, 214, 199]"

text \<open>\<open>[a-zA-Z\<dots>\s\-\.\']\<close> with the Turkish letters in the place of the dots.\<close>

definition name_char :: "nat \<Rightarrow> bool" where
  "name_char c \<longleftrightarrow>
     ascii_letter c \<or> c \<in> set turkish_letters \<or> isspace c \<or> c \<in> set (str ''-.'') \<or> c = 39"

text \<open>\<open>[a-zA-Z0-9\-_]\<close>\<close>

definition token_char :: "nat \<Rightarrow> bool" where
  "token_char c \<longleftrightarrow> alnum c \<or> c \<in> set (str ''-_'')"

text \<open>\<open>^[A-Z]{2,10}USDT$\<close>\<close>

definition symbol_pattern :: rexp where
  "symbol_pattern = Seq (Between 2 10 (Atom ascii_upper)) (Word (str ''USDT''))"

section \<open>Request models\<close>

text \<open>
  Every \<open>raise ValueError(message)\<close> of the module is one constructor:
  \<^item> \<open>InvalidEmailFormat\<close>: Invalid email format
  \<^item> \<open>PasswordTooShort\<close>: Password must be at least 6 characters
  \<^item> \<open>PasswordTooLong\<close>: Password too long
  \<^item> \<open>WeakPassword\<close>: Password must contain at least one letter and one number
  \<^item> \<open>NameTooShort\<close>: Full name must be at least 2 characters
  \<^item> \<open>NameTooLong\<close>: Full name too long
  \<^item> \<open>InvalidFullName\<close>: Full name contains invalid characters
  \<^item> \<open>InvalidTokenFormat\<close>: Invalid token format
  \<^item> \<open>InvalidTokenLength\<close>: Invalid token length
  \<^item> \<open>InvalidAPICredentialLength\<close>: API credential length must be between 10-200 characters
  \<^item> \<open>InvalidAPICredentialFormat\<close>: API credentials contain invalid characters
  \<^item> \<open>InvalidAction\<close>: Action must be either "start" or "stop"
  \<^item> \<open>InvalidSymbolLength\<close>: Symbol length must be between 3-20 characters
  \<^item> \<open>InvalidSymbolFormat\<close>: Invalid symbol format. Must be like BTCUSDT
  \<^item> \<open>OrderSizeOutOfRange\<close>: Order size must be between 10-1000 USDT
  \<^item> \<open>LeverageOutOfRange\<close>: Leverage must be between 1-20
  \<^item> \<open>StopLossOutOfRange\<close>: Stop loss must be between 1-10%
  \<^item> \<open>TakeProfitOutOfRange\<close>: Take profit must be between 2-20%
  \<^item> \<open>InvalidTimeframe\<close>: Timeframe must be one of: 1m, 5m, 15m, 1h, 4h
\<close>

datatype error =
  InvalidEmailFormat
  | PasswordTooShort
  | PasswordTooLong
  | WeakPassword
  | NameTooShort
  | NameTooLong
  | InvalidFullName
  | InvalidTokenFormat
  | InvalidTokenLength
  | InvalidAPICredentialLength
  | InvalidAPICredentialFormat
  | InvalidAction
  | InvalidSymbolLength
  | InvalidSymbolFormat
  | OrderSizeOutOfRange
  | LeverageOutOfRange
  | StopLossOutOfRange
  | TakeProfitOutOfRange
  | InvalidTimeframe

subsection \<open>UserRegister\<close>

text \<open>
  \<open>str.lower()\<close> and \<open>str.upper()\<close> follow the case mapping of the runtime's Unicode
  database, which is not part of the module: they are parameters of the validators that
  call them. \<open>\d\<close> in a \<open>str\<close> pattern is any Unicode decimal digit, a table of the same
  database and a parameter too.
\<close>

definition UserRegister_validate_email :: "(pystr \<Rightarrow> pystr) \<Rightarrow> pystr \<Rightarrow> error + pystr" where
  "UserRegister_validate_email lower v =
     (let email_str = strip (lower v) in
      if \<not> re_match email_pattern email_str then Inl InvalidEmailFormat
      else Inr email_str)"

definition UserRegister_validate_password :: "(nat \<Rightarrow> bool) \<Rightarrow> pystr \<Rightarrow> error + pystr" where
  "UserRegister_validate_password decimal v =
     (if length v < 6 then Inl PasswordTooShort
      else if length v > 128 then Inl PasswordTooLong
      else if \<not> re_search (Atom ascii_letter) v \<or> \<not> re_search (Atom decimal) v
        then Inl WeakPassword
      else Inr v)"

definition UserRegister_validate_full_name :: "pystr \<Rightarrow> error + pystr" where
  "UserRegister_validate_full_name v0 =
     (let v = html_escape (strip v0) in
      if length v < 2 then Inl NameTooShort
      else if length v > 100 then Inl NameTooLong
      else if \<not> re_match (Plus (Atom name_char)) v then Inl InvalidFullName
      else Inr v)"

subsection \<open>PasswordReset and PasswordResetConfirm\<close>

definition PasswordReset_validate_email :: "(pystr \<Rightarrow> pystr) \<Rightarrow> pystr \<Rightarrow> error + pystr" where
  "PasswordReset_validate_email lower v =
     (if \<not> re_match email_pattern v then Inl InvalidEmailFormat
      else Inr (lower v))"

definition PasswordResetConfirm_validate_token :: "pystr \<Rightarrow> error + pystr" where
  "PasswordResetConfirm_validate_token v =
     (if \<not> re_match (Plus (Atom token_char)) v then Inl InvalidTokenFormat
      else if length v < 10 \<or> length v > 200 then Inl InvalidTokenLength
      else Inr v)"

definition PasswordResetConfirm_validate_password ::
  "(nat \<Rightarrow> bool) \<Rightarrow> pystr \<Rightarrow> error + pystr" where
  "PasswordResetConfirm_validate_password decimal v =
     (if length v < 6 then Inl PasswordTooShort
      else if \<not> re_search (Atom ascii_letter) v \<or> \<not> re_search (Atom decimal) v
        then Inl WeakPassword
      else if length v > 128 then Inl PasswordTooLong
      else Inr v)"

subsection \<open>APIKeysUpdate\<close>

definition APIKeysUpdate_validate_api_credentials :: "pystr \<Rightarrow> error + pystr" where
  "APIKeysUpdate_validate_api_credentials v0 =
     (let v = strip v0 in
      if length v < 10 \<or> length v > 200 then Inl InvalidAPICredentialLength
      else if \<not> re_match (Plus (Atom alnum)) v then Inl InvalidAPICredentialFormat
      else Inr v)"

subsection \<open>BotControl\<close>

definition BotControl_validate_action :: "pystr \<Rightarrow> error + pystr" where
  "BotControl_validate_action v =
     (if v \<notin> set [str ''start'', str ''stop''] then Inl InvalidAction else Inr v)"

definition BotControl_validate_symbol ::
  "(pystr \<Rightarrow> pystr) \<Rightarrow> pystr option \<Rightarrow> error + pystr option" where
  "BotControl_validate_symbol upper v0 =
     (case v0 of
        None \<Rightarrow> Inr None
      | Some s \<Rightarrow>
          (let v = strip (upper s) in
           if length v < 3 \<or> length v > 20 then Inl InvalidSymbolLength
           else if \<not> re_match symbol_pattern v then Inl InvalidSymbolFormat
           else Inr (Some v)))"

subsection \<open>BotSettings\<close>

text \<open>
  A Python \<open>float\<close> is a finite number, an infinity or NaN. The validators only compare it
  with constants, and a comparison of floats is exact: a finite float is modelled by the real
  number it denotes. Every ordering comparison with NaN is false.
\<close>

datatype pyfloat = Finite real | PosInf | NegInf | NaN

fun float_lt :: "pyfloat \<Rightarrow> pyfloat \<Rightarrow> bool" where
  "float_lt NaN y = False"
| "float_lt x NaN = False"
| "float_lt (Finite a) (Finite b) = (a < b)"
| "float_lt (Finite a) PosInf = True"
| "float_lt NegInf (Finite b) = True"
| "float_lt NegInf PosInf = True"
| "float_lt x y = False"

definition float_gt :: "pyfloat \<Rightarrow> pyfloat \<Rightarrow> bool" where
  "float_gt x y = float_lt y x"

definition BotSettings_validate_order_size :: "pyfloat \<Rightarrow> error + pyfloat" where
  "BotSettings_validate_order_size v =
     (if float_lt v (Finite 10) \<or> float_gt v (Finite 1000) then Inl OrderSizeOutOfRange
      else Inr v)"

definition BotSettings_validate_leverage :: "int \<Rightarrow> error + int" where
  "BotSettings_validate_leverage v =
     (if v < 1 \<or> v > 20 then Inl LeverageOutOfRange else Inr v)"

definition BotSettings_validate_stop_loss :: "pyfloat \<Rightarrow> error + pyfloat" where
  "BotSettings_validate_stop_loss v =
     (if float_lt v (Finite 1) \<or> float_gt v (Finite 10) then Inl StopLossOutOfRange
      else Inr v)"

definition BotSettings_validate_take_profit :: "pyfloat \<Rightarrow> error + pyfloat" where
  "BotSettings_validate_take_profit v =
     (if float_lt v (Finite 2) \<or> float_gt v (Finite 20) then Inl TakeProfitOutOfRange
      else Inr v)"

definition BotSettings_validate_timeframe :: "pystr \<Rightarrow> error + pystr" where
  "BotSettings_validate_timeframe v =
     (if v \<notin> set [str ''1m'', str ''5m'', str ''15m'', str ''1h'', str ''4h'']
      then Inl InvalidTimeframe else Inr v)"

section \<open>Response models\<close>

datatype UserRole = USER | ADMIN

datatype SubscriptionStatus = TRIAL | ACTIVE | EXPIRED | CANCELLED

text \<open>The values a record dictionary holds, and the declared types of the fields.\<close>

datatype pyval =
  VNone
  | VStr pystr
  | VBool bool
  | VInt int
  | VFloat pyfloat
  | VDatetime int
  | VRole UserRole
  | VStatus SubscriptionStatus

datatype ftype = TStr | TBool | TDatetime | TUserRole | TSubscriptionStatus | TOptional ftype

text \<open>A declared field: its name, its type, and its default when it has one.\<close>

type_synonym field = "string \<times> ftype \<times> pyval option"

text \<open>The fields of \<open>UserData\<close>, in the order of the class body.\<close>

definition UserData_fields :: "field list" where
  "UserData_fields =
     [(''uid'', TStr, None),
      (''email'', TStr, None),
      (''full_name'', TStr, None),
      (''password_hash'', TStr, None),
      (''role'', TUserRole, Some (VRole USER)),
      (''subscription_status'', TSubscriptionStatus, Some (VStatus TRIAL)),
      (''trial_end_date'', TOptional TDatetime, Some VNone),
      (''subscription_end_date'', TOptional TDatetime, Some VNone),
      (''created_at'', TOptional TDatetime, Some VNone),
      (''is_blocked'', TBool, Some (VBool False)),
      (''api_key_encrypted'', TOptional TStr, Some VNone),
      (''api_secret_encrypted'', TOptional TStr, Some VNone),
      (''is_testnet'', TBool, Some (VBool False))]"

datatype field_error = FieldRequired string | FieldInvalid string

text \<open>
  \<open>UserData\<close> declares no validator, so what its constructor does is what the base class
  of the validation library does with the declared fields: a key that the record lacks takes
  the declared default, a missing key without a default is an error, and a value that is
  present goes through the library's conversion to the declared type. That conversion is the
  parameter \<open>conv\<close>. The errors of all fields are collected.
\<close>

fun validate_model ::
  "(ftype \<Rightarrow> pyval \<Rightarrow> pyval option) \<Rightarrow> field list \<Rightarrow> (string \<rightharpoonup> pyval) \<Rightarrow>
     field_error list \<times> (string \<rightharpoonup> pyval)" where
  "validate_model conv [] d = ([], Map.empty)"
| "validate_model conv ((n, t, dflt) # fs) d =
     (let (errs, vals) = validate_model conv fs d in
      case d n of
        None \<Rightarrow>
          (case dflt of
             None \<Rightarrow> (FieldRequired n # errs, vals)
           | Some x \<Rightarrow> (errs, vals(n \<mapsto> x)))
      | Some raw \<Rightarrow>
          (case conv t raw of
             None \<Rightarrow> (FieldInvalid n # errs, vals)
           | Some x \<Rightarrow> (errs, vals(n \<mapsto> x))))"

definition UserData_init ::
  "(ftype \<Rightarrow> pyval \<Rightarrow> pyval option) \<Rightarrow> (string \<rightharpoonup> pyval) \<Rightarrow>
     field_error list + (string \<rightharpoonup> pyval)" where
  "UserData_init conv d =
     (case validate_model conv UserData_fields d of
        ([], vals) \<Rightarrow> Inr vals
      | (e # es, vals) \<Rightarrow> Inl (e # es))"

text \<open>
  A conversion that accepts a value of the declared type, and \<open>None\<close> for an optional
  field; it serves to run the constructor on examples.
\<close>

fun strict_conv :: "ftype \<Rightarrow> pyval \<Rightarrow> pyval option" where
  "strict_conv TStr (VStr s) = Some (VStr s)"
| "strict_conv TBool (VBool b) = Some (VBool b)"
| "strict_conv TDatetime (VDatetime t) = Some (VDatetime t)"
| "strict_conv TUserRole (VRole r) = Some (VRole r)"
| "strict_conv TSubscriptionStatus (VStatus s) = Some (VStatus s)"
| "strict_conv (TOptional t) VNone = Some VNone"
| "strict_conv (TOptional t) v = strict_conv t v"
| "strict_conv t v = None"

text \<open>ASCII case mapping, which \<open>str.lower()\<close> and \<open>str.upper()\<close> extend.\<close>

definition ascii_lowercase :: "pystr \<Rightarrow> pystr" where
  "ascii_lowercase s = map (\<lambda>c. if ascii_upper c then c + 32 else c) s"

definition ascii_uppercase :: "pystr \<Rightarrow> pystr" where
  "ascii_uppercase s = map (\<lambda>c. if ascii_lower c then c - 32 else c) s"

text \<open>
  A declared field is in order in a record when it is present with a value that converts
  to the declared type, or absent with a default to take.
\<close>

definition field_ok :: "(ftype \<Rightarrow> pyval \<Rightarrow> pyval option) \<Rightarrow> (string \<rightharpoonup> pyval) \<Rightarrow> field \<Rightarrow> bool" where
  "field_ok conv d f =
     (case f of (n, t, dflt) \<Rightarrow>
        (case d n of None \<Rightarrow> dflt \<noteq> None | Some raw \<Rightarrow> conv t raw \<noteq> None))"

text \<open>A stored record that holds the four required fields and nothing else.\<close>

definition example_record :: "string \<rightharpoonup> pyval" where
  "example_record =
     [''uid'' \<mapsto> VStr (str ''u1''), ''email'' \<mapsto> VStr (str ''a@b.co''),
      ''full_name'' \<mapsto> VStr (str ''Ali Veli''), ''password_hash'' \<mapsto> VStr (str ''x'')]"

section \<open>The rules as the specification words them\<close>

text \<open>
  Full name: trim, escape, then the length bound from 2 to 100 on the escaped text, then the
  permitted characters.
\<close>

definition full_name_spec :: "pystr \<Rightarrow> error + pystr" where
  "full_name_spec raw =
     (let v = html_escape (strip raw) in
      if length v < 2 \<or> 100 < length v
        then (if length v < 2 then Inl NameTooShort else Inl NameTooLong)
      else if \<exists>c \<in> set v. \<not> name_char c then Inl InvalidFullName
      else Inr v)"

text \<open>
  Password: from 6 to 128 characters, with at least one alphabetic character and at least
  one digit. Which code points are alphabetic and which are digits is for the Unicode
  database to say; both classes are parameters.
\<close>

definition password_spec :: "(nat \<Rightarrow> bool) \<Rightarrow> (nat \<Rightarrow> bool) \<Rightarrow> pystr \<Rightarrow> bool" where
  "password_spec alphabetic digit v \<longleftrightarrow>
     6 \<le> length v \<and> length v \<le> 128 \<and> list_ex alphabetic v \<and> list_ex digit v"

text \<open>
  The letters that the module itself lists, in the class of the full name: \<open>[a-zA-Z]\<close> and
  the twelve Turkish letters.
\<close>

definition name_letter :: "nat \<Rightarrow> bool" where
  "name_letter c \<longleftrightarrow> ascii_letter c \<or> c \<in> set turkish_letters"

text \<open>
  Symbol: the whole text is from two to ten letters of \<open>[A-Z]\<close> followed by \<open>USDT\<close>.
\<close>

definition symbol_spec :: "pystr \<Rightarrow> bool" where
  "symbol_spec v \<longleftrightarrow>
     6 \<le> length v \<and> length v \<le> 14 \<and>
     drop (length v - 4) v = str ''USDT'' \<and> list_all ascii_upper (take (length v - 4) v)"

section \<open>The matcher decides the language of a pattern\<close>

lemma conc_iff: "w \<in> conc A B \<longleftrightarrow> (\<exists>u v. w = u @ v \<and> u \<in> A \<and> v \<in> B)"
  by (auto simp: conc_def)

lemma nil_in_conc: "[] \<in> conc A B \<longleftrightarrow> [] \<in> A \<and> [] \<in> B"
  by (auto simp: conc_iff)

lemma nullable_lang: "nullable r \<longleftrightarrow> [] \<in> lang r"
  by (induction r) (auto simp: nil_in_conc intro: star.intros)

lemma cons_in_conc:
  "c # w \<in> conc A B \<longleftrightarrow>
     (\<exists>u v. w = u @ v \<and> c # u \<in> A \<and> v \<in> B) \<or> ([] \<in> A \<and> c # w \<in> B)"
proof
  assume "c # w \<in> conc A B"
  then obtain u v where uv: "c # w = u @ v" "u \<in> A" "v \<in> B"
    by (auto simp: conc_iff)
  show "(\<exists>u v. w = u @ v \<and> c # u \<in> A \<and> v \<in> B) \<or> ([] \<in> A \<and> c # w \<in> B)"
  proof (cases u)
    case Nil
    with uv show ?thesis by simp
  next
    case (Cons a u')
    with uv have "w = u' @ v" "c # u' \<in> A" by auto
    with uv show ?thesis by blast
  qed
next
  assume "(\<exists>u v. w = u @ v \<and> c # u \<in> A \<and> v \<in> B) \<or> ([] \<in> A \<and> c # w \<in> B)"
  then show "c # w \<in> conc A B"
  proof
    assume "\<exists>u v. w = u @ v \<and> c # u \<in> A \<and> v \<in> B"
    then obtain u v where "w = u @ v" "c # u \<in> A" "v \<in> B" by blast
    then have "c # w = (c # u) @ v \<and> c # u \<in> A \<and> v \<in> B" by simp
    then show ?thesis unfolding conc_iff by blast
  next
    assume "[] \<in> A \<and> c # w \<in> B"
    then have "c # w = [] @ (c # w) \<and> [] \<in> A \<and> c # w \<in> B" by simp
    then show ?thesis unfolding conc_iff by blast
  qed
qed

lemma star_cons_split:
  "x \<in> star A \<Longrightarrow> x = c # w \<Longrightarrow> \<exists>u v. w = u @ v \<and> c # u \<in> A \<and> v \<in> star A"
proof (induction arbitrary: w rule: star.induct)
  case star_nil
  then show ?case by simp
next
  case (star_app u v)
  show ?case
  proof (cases u)
    case Nil
    with star_app show ?thesis by simp
  next
    case (Cons a u')
    with star_app.prems have "w = u' @ v" "a = c" by auto
    with Cons star_app.hyps show ?thesis by blast
  qed
qed

lemma cons_in_star:
  "c # w \<in> star A \<longleftrightarrow> (\<exists>u v. w = u @ v \<and> c # u \<in> A \<and> v \<in> star A)"
proof
  assume "c # w \<in> star A"
  then show "\<exists>u v. w = u @ v \<and> c # u \<in> A \<and> v \<in> star A"
    by (rule star_cons_split) simp
next
  assume "\<exists>u v. w = u @ v \<and> c # u \<in> A \<and> v \<in> star A"
  then obtain u v where "w = u @ v" "c # u \<in> A" "v \<in> star A" by blast
  then show "c # w \<in> star A"
    using star_app [of "c # u" A v] by simp
qed

lemma deriv_lang: "w \<in> lang (deriv c r) \<longleftrightarrow> c # w \<in> lang r"
proof (induction r arbitrary: w)
  case (Seq r1 r2)
  have a: "w \<in> conc (lang (deriv c r1)) (lang r2) \<longleftrightarrow>
      (\<exists>u v. w = u @ v \<and> c # u \<in> lang r1 \<and> v \<in> lang r2)"
    by (simp add: conc_iff Seq.IH)
  show ?case
    by (auto simp: a cons_in_conc nullable_lang Seq.IH)
next
  case (Star r)
  then show ?case
    by (auto simp: cons_in_star conc_iff)
qed auto

lemma matches_lang: "matches r s \<longleftrightarrow> s \<in> lang r"
  by (induction s arbitrary: r) (simp_all add: nullable_lang deriv_lang)

lemma star_atoms: "s \<in> star {[c] |c. P c} \<longleftrightarrow> (\<forall>c \<in> set s. P c)"
proof
  assume "s \<in> star {[c] |c. P c}"
  then show "\<forall>c \<in> set s. P c"
    by (induction rule: star.induct) auto
next
  assume "\<forall>c \<in> set s. P c"
  then show "s \<in> star {[c] |c. P c}"
  proof (induction s)
    case Nil
    show ?case by (rule star_nil)
  next
    case (Cons a s)
    then have "[a] \<in> {[c] |c. P c}" "s \<in> star {[c] |c. P c}" by auto
    then have "[a] @ s \<in> star {[c] |c. P c}" by (rule star_app)
    then show ?case by simp
  qed
qed

lemma matches_Plus_Atom: "matches (Plus (Atom P)) s \<longleftrightarrow> s \<noteq> [] \<and> (\<forall>c \<in> set s. P c)"
  by (cases s) (auto simp: matches_lang Plus_def nil_in_conc cons_in_conc star_atoms)

lemma re_match_Plus_Atom:
  "re_match (Plus (Atom P)) s \<longleftrightarrow>
     (s \<noteq> [] \<and> (\<forall>c \<in> set s. P c)) \<or>
     (\<exists>t. s = t @ [10] \<and> t \<noteq> [] \<and> (\<forall>c \<in> set t. P c))"
proof (cases "s = []")
  case True
  then show ?thesis by (simp add: re_match_def Plus_def)
next
  case False
  then have s: "s = butlast s @ [last s]" by simp
  show ?thesis
  proof
    assume "re_match (Plus (Atom P)) s"
    then show "(s \<noteq> [] \<and> (\<forall>c \<in> set s. P c)) \<or>
       (\<exists>t. s = t @ [10] \<and> t \<noteq> [] \<and> (\<forall>c \<in> set t. P c))"
      using s by (auto simp: re_match_def matches_Plus_Atom)
  next
    assume "(s \<noteq> [] \<and> (\<forall>c \<in> set s. P c)) \<or>
       (\<exists>t. s = t @ [10] \<and> t \<noteq> [] \<and> (\<forall>c \<in> set t. P c))"
    then show "re_match (Plus (Atom P)) s"
      by (auto simp: re_match_def matches_Plus_Atom)
  qed
qed

lemma matches_prefix_Zero: "\<not> matches_prefix Zero s"
  by (induction s) auto

lemma matches_prefix_One: "matches_prefix One s"
  by (cases s) auto

lemma re_search_Atom: "re_search (Atom P) s \<longleftrightarrow> (\<exists>c \<in> set s. P c)"
  by (induction s) (auto simp: matches_prefix_Zero matches_prefix_One)

section \<open>Evaluation rules\<close>

lemma Rep_numeral: "Rep (numeral k) r = Seq r (Rep (pred_numeral k) r)"
  by (simp add: numeral_eq_Suc)

lemma Upto_numeral: "Upto (numeral k) r = Alt One (Seq r (Upto (pred_numeral k) r))"
  by (simp add: numeral_eq_Suc)

lemmas class_defs = ascii_lower_def ascii_upper_def ascii_digit_def ascii_letter_def alnum_def
  email_local_char_def email_domain_char_def name_char_def token_char_def turkish_letters_def
  isspace_def str_def

lemmas pattern_defs = re_match_def Plus_def Lit_def Between_def AtLeast_def email_pattern_def
  symbol_pattern_def Rep_numeral Upto_numeral

section \<open>Trimming and escaping\<close>

lemma html_escape_Nil: "html_escape [] = []"
  by (simp add: html_escape_def replace_def)

lemma html_escape_Cons:
  "html_escape (c # s) =
     (if c = 38 then str ''&amp;''
      else if c = 60 then str ''&lt;''
      else if c = 62 then str ''&gt;''
      else if c = 34 then str ''&quot;''
      else if c = 39 then str ''&#x27;''
      else [c]) @ html_escape s"
  by (simp add: html_escape_def replace_def str_def)

lemma html_escape_append: "html_escape (s @ t) = html_escape s @ html_escape t"
  by (induction s) (simp_all add: html_escape_Nil html_escape_Cons)

lemma strip_last: "strip s \<noteq> [] \<Longrightarrow> \<not> isspace (last (strip s))"
proof -
  assume a: "strip s \<noteq> []"
  let ?xs = "dropWhile isspace (rev (dropWhile isspace s))"
  from a have ne: "?xs \<noteq> []" by (simp add: strip_def)
  then have "\<not> isspace (hd ?xs)" by (rule hd_dropWhile)
  moreover from ne have "last (strip s) = hd ?xs"
    by (simp add: strip_def last_rev)
  ultimately show ?thesis by simp
qed

lemma isspace_newline: "isspace 10"
  by (simp add: isspace_def)

lemma re_match_strip: "re_match r (strip s) \<longleftrightarrow> matches r (strip s)"
  using strip_last [of s] isspace_newline by (auto simp: re_match_def)

lemma strip_ends:
  "s \<noteq> [] \<Longrightarrow> \<not> isspace (hd s) \<Longrightarrow> \<not> isspace (last s) \<Longrightarrow> strip s = s"
proof -
  assume a: "s \<noteq> []" "\<not> isspace (hd s)" "\<not> isspace (last s)"
  then have 1: "dropWhile isspace s = s" by (cases s) auto
  from a obtain y ys where ys: "rev s = y # ys" by (cases "rev s") auto
  from a have "hd (rev s) = last s" by (simp add: hd_rev)
  with ys a have "\<not> isspace y" by simp
  with ys have 2: "dropWhile isspace (rev s) = rev s" by simp
  show ?thesis by (simp add: strip_def 1 2)
qed

section \<open>UserRegister.full_name\<close>

lemma re_match_name:
  "re_match (Plus (Atom name_char)) s \<longleftrightarrow> s \<noteq> [] \<and> (\<forall>c \<in> set s. name_char c)"
proof -
  have "name_char 10" by (simp add: name_char_def isspace_def)
  then show ?thesis by (auto simp: re_match_Plus_Atom)
qed

lemma full_name_example:
  "UserRegister_validate_full_name (str ''<b>Al</b>'') = Inl InvalidFullName"
  by (simp add: UserRegister_validate_full_name_def re_match_name strip_def html_escape_Cons html_escape_Nil class_defs)

text \<open>
  Claim C1. The full-name validator trims and escapes the raw value first, and applies the
  length bound from 2 to 100 and the permitted characters to the escaped text: it computes
  what \<open>full_name_spec\<close> words. The input \<open><b>Al</b>\<close> escapes to a text that holds
  \<open>&\<close>, which is not a permitted character, and is rejected with the error for invalid
  characters.
\<close>

theorem full_name_escaped_before_checks:
  "UserRegister_validate_full_name raw = full_name_spec raw \<and>
   html_escape (strip (str ''<b>Al</b>'')) = str ''&lt;b&gt;Al&lt;/b&gt;'' \<and>
   \<not> name_char (of_char CHR ''&'') \<and>
   UserRegister_validate_full_name (str ''<b>Al</b>'') = Inl InvalidFullName"
proof -
  have 1: "UserRegister_validate_full_name raw = full_name_spec raw"
    by (auto simp: UserRegister_validate_full_name_def full_name_spec_def Let_def re_match_name)
  have 2: "html_escape (strip (str ''<b>Al</b>'')) = str ''&lt;b&gt;Al&lt;/b&gt;''"
    by (simp add: strip_def html_escape_Cons html_escape_Nil class_defs)
  have 3: "\<not> name_char (of_char CHR ''&'')"
    by (simp add: class_defs)
  from 1 2 3 full_name_example show ?thesis by simp
qed

theorem full_name_escaped_before_checks_witness:
  "UserRegister_validate_full_name (str ''Ali Veli'') = Inr (str ''Ali Veli'')"
proof -
  have "full_name_spec (str ''Ali Veli'') = Inr (str ''Ali Veli'')"
    by (simp add: full_name_spec_def strip_def html_escape_Cons html_escape_Nil class_defs)
  with full_name_escaped_before_checks [of "str ''Ali Veli''"] show ?thesis by simp
qed

section \<open>API credentials and reset tokens\<close>

text \<open>
  Claim C3. The API credential \<open>abc-123-xyz\<close> is rejected for its characters, the hyphen
  not being alphanumeric, while the reset token \<open>abc-123-xyz9\<close> of 12 characters is
  accepted and returned unchanged: the hyphen is in the class of the token.
\<close>

theorem credential_and_token_charsets:
  "APIKeysUpdate_validate_api_credentials (str ''abc-123-xyz'') = Inl InvalidAPICredentialFormat \<and>
   PasswordResetConfirm_validate_token (str ''abc-123-xyz9'') = Inr (str ''abc-123-xyz9'') \<and>
   length (str ''abc-123-xyz9'') = 12 \<and>
   \<not> alnum (of_char CHR ''-'') \<and> token_char (of_char CHR ''-'')"
  by (simp add: APIKeysUpdate_validate_api_credentials_def PasswordResetConfirm_validate_token_def
      re_match_Plus_Atom strip_def class_defs)

text \<open>
  Claim C10. The token validator accepts the 11 characters \<open>abcdef1234\<close> followed by a
  newline and returns them with the newline, although the newline is not in the class of
  the token and the whole string is not in the language of the pattern: \<open>$\<close> matches before
  a newline that ends the string.
\<close>

theorem token_trailing_newline_accepted:
  "PasswordResetConfirm_validate_token (str ''abcdef1234'' @ [10]) = Inr (str ''abcdef1234'' @ [10]) \<and>
   length (str ''abcdef1234'' @ [10]) = 11 \<and>
   \<not> token_char 10 \<and>
   \<not> matches (Plus (Atom token_char)) (str ''abcdef1234'' @ [10])"
  by (simp add: PasswordResetConfirm_validate_token_def re_match_Plus_Atom matches_Plus_Atom class_defs
      del: matches.simps)

section \<open>Passwords\<close>

text \<open>
  What the two password validators accept: the length is from 6 to 128, one character is in
  \<open>[A-Za-z]\<close> and one is matched by \<open>\d\<close>. This is the rule of the specification with the
  alphabetic characters narrowed to the ASCII letters.
\<close>

lemma UserRegister_password_iff:
  "UserRegister_validate_password decimal v = Inr w \<longleftrightarrow>
     w = v \<and> 6 \<le> length v \<and> length v \<le> 128 \<and> list_ex ascii_letter v \<and> list_ex decimal v"
  by (auto simp: UserRegister_validate_password_def re_search_Atom list_ex_iff)

lemma PasswordResetConfirm_password_iff:
  "PasswordResetConfirm_validate_password decimal v = Inr w \<longleftrightarrow>
     w = v \<and> 6 \<le> length v \<and> length v \<le> 128 \<and> list_ex ascii_letter v \<and> list_ex decimal v"
  by (auto simp: PasswordResetConfirm_validate_password_def re_search_Atom list_ex_iff)

lemma UserRegister_password_ascii_letters:
  "UserRegister_validate_password decimal v = Inr w \<longleftrightarrow>
     w = v \<and> password_spec ascii_letter decimal v"
  by (simp add: UserRegister_password_iff password_spec_def)

text \<open>
  The examples of the specification, all of them ASCII, come out as it says: of \<open>\d\<close> only
  its effect on ASCII characters is assumed.
\<close>

lemma registration_password_examples:
  assumes "\<forall>c. c < 128 \<longrightarrow> decimal c = ascii_digit c"
  shows "UserRegister_validate_password decimal (str ''abc123'') = Inr (str ''abc123'') \<and>
    UserRegister_validate_password decimal (str ''abcdef'') = Inl WeakPassword \<and>
    UserRegister_validate_password decimal (str ''123456'') = Inl WeakPassword \<and>
    UserRegister_validate_password decimal (str ''a1'') = Inl PasswordTooShort \<and>
    (length p = 129 \<longrightarrow> UserRegister_validate_password decimal p = Inl PasswordTooLong)"
proof -
  have d: "decimal c = ascii_digit c" if "c < 128" for c
    using assms that by simp
  have 1: "UserRegister_validate_password decimal (str ''abc123'') = Inr (str ''abc123'')"
    by (simp add: UserRegister_validate_password_def re_search_Atom d class_defs)
  have 2: "UserRegister_validate_password decimal (str ''abcdef'') = Inl WeakPassword"
    by (simp add: UserRegister_validate_password_def re_search_Atom d class_defs)
  have 3: "UserRegister_validate_password decimal (str ''123456'') = Inl WeakPassword"
    by (simp add: UserRegister_validate_password_def re_search_Atom d class_defs)
  have 4: "UserRegister_validate_password decimal (str ''a1'') = Inl PasswordTooShort"
    by (simp add: UserRegister_validate_password_def str_def)
  have 5: "length p = 129 \<longrightarrow> UserRegister_validate_password decimal p = Inl PasswordTooLong"
    by (simp add: UserRegister_validate_password_def)
  from 1 2 3 4 5 show ?thesis by blast
qed

text \<open>
  Claim C4. The registration password validator is to accept exactly the strings of 6 to
  128 characters that hold at least one letter and at least one digit. The seven
  characters U+00E7, U+011F, U+00F6, U+015F, U+00FC, U+0131 and \<open>1\<close> are six letters, which
  the module lists itself in the class of the full name, and a digit: the rule of the
  specification holds of them. The validator looks for a letter with \<open>[A-Za-z]\<close>, finds
  none and rejects the password as weak, whatever \<open>\d\<close> matches.
\<close>

theorem registration_password_rejects_turkish_letters:
  "password_spec name_letter ascii_digit [231, 287, 246, 351, 252, 305, 49] \<and>
   UserRegister_validate_password decimal [231, 287, 246, 351, 252, 305, 49] = Inl WeakPassword"
  by (simp add: password_spec_def name_letter_def UserRegister_validate_password_def
      re_search_Atom class_defs)

theorem registration_password_rejects_turkish_letters_witness:
  "UserRegister_validate_password ascii_digit [231, 287, 246, 351, 252, 305, 49] = Inl WeakPassword"
  using registration_password_rejects_turkish_letters [of ascii_digit] by simp

text \<open>
  Claim C5. The validator of \<open>PasswordResetConfirm.new_password\<close> succeeds on an input
  exactly when the registration password validator does, and on success both return the
  input unchanged.
\<close>

theorem reset_password_same_rule:
  "(PasswordResetConfirm_validate_password decimal v = Inr w \<longleftrightarrow>
      UserRegister_validate_password decimal v = Inr w) \<and>
   (UserRegister_validate_password decimal v = Inr w \<longrightarrow> w = v)"
  by (simp add: UserRegister_password_iff PasswordResetConfirm_password_iff)

theorem reset_password_same_rule_witness:
  "PasswordResetConfirm_validate_password ascii_digit (str ''abc123'') = Inr (str ''abc123'') \<and>
   UserRegister_validate_password ascii_digit (str ''abc123'') = Inr (str ''abc123'')"
proof -
  have "UserRegister_validate_password ascii_digit (str ''abc123'') = Inr (str ''abc123'')"
    by (simp add: UserRegister_validate_password_def re_search_Atom class_defs)
  with reset_password_same_rule [of ascii_digit "str ''abc123''" "str ''abc123''"]
  show ?thesis by simp
qed

section \<open>BotControl\<close>

lemma lang_Rep_Atom:
  "w \<in> lang (Rep n (Atom P)) \<longleftrightarrow> length w = n \<and> (\<forall>c \<in> set w. P c)"
proof (induction n arbitrary: w)
  case 0
  show ?case by auto
next
  case (Suc n)
  show ?case
    by (cases w) (auto simp: nil_in_conc cons_in_conc Suc)
qed

lemma lang_Upto_Atom:
  "w \<in> lang (Upto n (Atom P)) \<longleftrightarrow> length w \<le> n \<and> (\<forall>c \<in> set w. P c)"
proof (induction n arbitrary: w)
  case 0
  show ?case by auto
next
  case (Suc n)
  show ?case
    by (cases w) (auto simp: nil_in_conc cons_in_conc Suc)
qed

lemma lang_Word: "u \<in> lang (Word w) \<longleftrightarrow> u = w"
proof (induction w arbitrary: u)
  case Nil
  show ?case by simp
next
  case (Cons a w)
  show ?case
    by (cases u) (auto simp: nil_in_conc cons_in_conc Lit_def Cons)
qed

lemma lang_Between_Atom:
  assumes "m \<le> n"
  shows "w \<in> lang (Between m n (Atom P)) \<longleftrightarrow>
    m \<le> length w \<and> length w \<le> n \<and> (\<forall>c \<in> set w. P c)"
proof
  assume "w \<in> lang (Between m n (Atom P))"
  then obtain u v where "w = u @ v" "length u = m" "\<forall>c \<in> set u. P c"
      "length v \<le> n - m" "\<forall>c \<in> set v. P c"
    by (auto simp: Between_def conc_iff lang_Rep_Atom lang_Upto_Atom)
  with assms show "m \<le> length w \<and> length w \<le> n \<and> (\<forall>c \<in> set w. P c)"
    by auto
next
  assume a: "m \<le> length w \<and> length w \<le> n \<and> (\<forall>c \<in> set w. P c)"
  have "w = take m w @ drop m w" by simp
  moreover from a have "take m w \<in> lang (Rep m (Atom P))"
    by (auto simp: lang_Rep_Atom dest: in_set_takeD)
  moreover from a have "drop m w \<in> lang (Upto (n - m) (Atom P))"
    by (auto simp: lang_Upto_Atom dest: in_set_dropD)
  ultimately show "w \<in> lang (Between m n (Atom P))"
    unfolding Between_def lang.simps conc_iff by blast
qed

lemma symbol_pattern_lang: "v \<in> lang symbol_pattern \<longleftrightarrow> symbol_spec v"
proof
  assume "v \<in> lang symbol_pattern"
  then obtain p where "v = p @ str ''USDT''" "2 \<le> length p" "length p \<le> 10"
      "\<forall>c \<in> set p. ascii_upper c"
    by (auto simp: symbol_pattern_def conc_iff lang_Between_Atom lang_Word)
  then show "symbol_spec v"
    by (simp add: symbol_spec_def str_def list_all_iff)
next
  assume a: "symbol_spec v"
  let ?p = "take (length v - 4) v"
  have "v = ?p @ drop (length v - 4) v" by simp
  with a have "v = ?p @ str ''USDT''" by (simp add: symbol_spec_def)
  moreover from a have "?p \<in> lang (Between 2 10 (Atom ascii_upper))"
    by (auto simp: lang_Between_Atom symbol_spec_def list_all_iff)
  ultimately show "v \<in> lang symbol_pattern"
    unfolding symbol_pattern_def lang.simps conc_iff using lang_Word by blast
qed

lemma re_match_symbol: "re_match symbol_pattern (strip s) \<longleftrightarrow> symbol_spec (strip s)"
  by (simp add: re_match_strip matches_lang symbol_pattern_lang)

lemma BotControl_symbol_iff:
  "BotControl_validate_symbol upper (Some s) = Inr r \<longleftrightarrow>
     r = Some (strip (upper s)) \<and> symbol_spec (strip (upper s))"
proof -
  have "symbol_spec (strip (upper s)) \<longrightarrow>
      \<not> (length (strip (upper s)) < 3 \<or> 20 < length (strip (upper s)))"
    by (simp add: symbol_spec_def)
  then show ?thesis
    by (auto simp: BotControl_validate_symbol_def Let_def re_match_symbol)
qed

text \<open>
  Claim C6. \<open>BotControl.symbol\<close> is optional. When present it is uppercased and trimmed; a
  length outside 3 to 20 is rejected, and the value is accepted exactly when the whole of it
  matches \<open>[A-Z]{2,10}USDT\<close>, so the pattern decides. \<open>btcusdt\<close> yields \<open>BTCUSDT\<close>,
  \<open>BTCUSD\<close> is rejected for its format, and the action \<open>buy\<close> is rejected: an action is
  accepted exactly when it is \<open>start\<close> or \<open>stop\<close>. Of \<open>str.upper()\<close> only its effect on
  ASCII text is assumed.
\<close>

theorem bot_control_symbol_rule:
  assumes "\<forall>s. (\<forall>c \<in> set s. c < 128) \<longrightarrow> upper s = ascii_uppercase s"
  shows "BotControl_validate_symbol upper None = Inr None \<and>
    (BotControl_validate_symbol upper (Some s) = Inr r \<longleftrightarrow>
       r = Some (strip (upper s)) \<and> symbol_spec (strip (upper s))) \<and>
    (length (strip (upper s)) < 3 \<or> 20 < length (strip (upper s)) \<longrightarrow>
       BotControl_validate_symbol upper (Some s) = Inl InvalidSymbolLength) \<and>
    BotControl_validate_symbol upper (Some (str ''btcusdt'')) = Inr (Some (str ''BTCUSDT'')) \<and>
    BotControl_validate_symbol upper (Some (str ''BTCUSD'')) = Inl InvalidSymbolFormat \<and>
    BotControl_validate_action (str ''buy'') = Inl InvalidAction \<and>
    (BotControl_validate_action a = Inr b \<longleftrightarrow> b = a \<and> (a = str ''start'' \<or> a = str ''stop''))"
proof -
  have u1: "upper (str ''btcusdt'') = str ''BTCUSDT''"
    using assms by (simp add: ascii_uppercase_def class_defs)
  have u2: "upper (str ''BTCUSD'') = str ''BTCUSD''"
    using assms by (simp add: ascii_uppercase_def class_defs)
  have s1: "strip (str ''BTCUSDT'') = str ''BTCUSDT''"
    by (simp add: strip_def class_defs)
  have s2: "strip (str ''BTCUSD'') = str ''BTCUSD''"
    by (simp add: strip_def class_defs)
  have 1: "BotControl_validate_symbol upper None = Inr None"
    by (simp add: BotControl_validate_symbol_def)
  have 3: "length (strip (upper s)) < 3 \<or> 20 < length (strip (upper s)) \<longrightarrow>
       BotControl_validate_symbol upper (Some s) = Inl InvalidSymbolLength"
    by (auto simp: BotControl_validate_symbol_def Let_def)
  have "symbol_spec (str ''BTCUSDT'')"
    by (simp add: symbol_spec_def class_defs)
  then have 4: "BotControl_validate_symbol upper (Some (str ''btcusdt'')) = Inr (Some (str ''BTCUSDT''))"
    by (simp add: BotControl_symbol_iff u1 s1)
  have "\<not> symbol_spec (str ''BTCUSD'')"
    by (simp add: symbol_spec_def class_defs)
  moreover have "length (str ''BTCUSD'') = 6" by (simp add: str_def)
  ultimately have 5: "BotControl_validate_symbol upper (Some (str ''BTCUSD'')) = Inl InvalidSymbolFormat"
    using re_match_symbol [of "str ''BTCUSD''"]
    by (simp add: BotControl_validate_symbol_def u2 s2)
  have 6: "BotControl_validate_action (str ''buy'') = Inl InvalidAction"
    by (simp add: BotControl_validate_action_def str_def)
  have 7: "BotControl_validate_action a = Inr b \<longleftrightarrow> b = a \<and> (a = str ''start'' \<or> a = str ''stop'')"
    by (auto simp: BotControl_validate_action_def)
  from 1 BotControl_symbol_iff 3 4 5 6 7 show ?thesis by blast
qed

theorem bot_control_symbol_rule_witness:
  "BotControl_validate_symbol ascii_uppercase (Some (str ''btcusdt'')) = Inr (Some (str ''BTCUSDT'')) \<and>
   BotControl_validate_symbol ascii_uppercase (Some (str ''x'')) = Inl InvalidSymbolLength \<and>
   symbol_spec (strip (ascii_uppercase (str '' ethusdt '')))"
proof -
  have h: "\<forall>s. (\<forall>c \<in> set s. c < 128) \<longrightarrow> ascii_uppercase s = ascii_uppercase s" by simp
  have l: "length (strip (ascii_uppercase (str ''x''))) < 3"
    by (simp add: strip_def ascii_uppercase_def class_defs)
  have e: "BotControl_validate_symbol ascii_uppercase (Some (str '' ethusdt '')) = Inr (Some (str ''ETHUSDT''))"
    by (simp add: BotControl_validate_symbol_def strip_def ascii_uppercase_def class_defs
        re_match_Plus_Atom pattern_defs)
  from bot_control_symbol_rule [OF h, of "str ''x''"] l
       bot_control_symbol_rule [OF h, of "str '' ethusdt ''" "Some (str ''ETHUSDT'')"] e
  show ?thesis by simp
qed

section \<open>BotSettings\<close>

text \<open>
  On finite numbers the three float validators enforce their inclusive bounds, both
  infinities are rejected, the leverage is an integer from 1 to 20, and the timeframe is one
  of five texts.
\<close>

lemma float_validators_finite:
  "(BotSettings_validate_order_size (Finite x) = Inr y \<longleftrightarrow> y = Finite x \<and> 10 \<le> x \<and> x \<le> 1000) \<and>
   (BotSettings_validate_stop_loss (Finite x) = Inr y \<longleftrightarrow> y = Finite x \<and> 1 \<le> x \<and> x \<le> 10) \<and>
   (BotSettings_validate_take_profit (Finite x) = Inr y \<longleftrightarrow> y = Finite x \<and> 2 \<le> x \<and> x \<le> 20)"
  by (auto simp: BotSettings_validate_order_size_def BotSettings_validate_stop_loss_def
      BotSettings_validate_take_profit_def float_gt_def)

lemma float_validators_infinite:
  "BotSettings_validate_order_size PosInf = Inl OrderSizeOutOfRange \<and>
   BotSettings_validate_order_size NegInf = Inl OrderSizeOutOfRange \<and>
   BotSettings_validate_stop_loss PosInf = Inl StopLossOutOfRange \<and>
   BotSettings_validate_stop_loss NegInf = Inl StopLossOutOfRange \<and>
   BotSettings_validate_take_profit PosInf = Inl TakeProfitOutOfRange \<and>
   BotSettings_validate_take_profit NegInf = Inl TakeProfitOutOfRange"
  by (simp add: BotSettings_validate_order_size_def BotSettings_validate_stop_loss_def
      BotSettings_validate_take_profit_def float_gt_def)

lemma leverage_rule:
  "(BotSettings_validate_leverage n = Inr m \<longleftrightarrow> m = n \<and> 1 \<le> n \<and> n \<le> 20) \<and>
   BotSettings_validate_leverage 20 = Inr 20 \<and>
   BotSettings_validate_leverage 25 = Inl LeverageOutOfRange"
  by (auto simp: BotSettings_validate_leverage_def)

lemma timeframe_rule:
  "(BotSettings_validate_timeframe v = Inr w \<longleftrightarrow>
      w = v \<and> v \<in> {str ''1m'', str ''5m'', str ''15m'', str ''1h'', str ''4h''}) \<and>
   BotSettings_validate_timeframe (str ''30m'') = Inl InvalidTimeframe"
  by (auto simp: BotSettings_validate_timeframe_def str_def)

text \<open>
  Claim C7. \<open>BotSettings\<close> is to keep \<open>order_size_usdt\<close> in [10,1000],
  \<open>stop_loss_percent\<close> in [1,10] and \<open>take_profit_percent\<close> in [2,20]. The validators
  reject a value only when it compares below the lower bound or above the upper bound, and
  NaN compares neither way: each of the three returns NaN as a valid value, although NaN
  lies in none of the intervals.
\<close>

theorem float_bounds_accept_nan:
  "BotSettings_validate_order_size NaN = Inr NaN \<and>
   BotSettings_validate_stop_loss NaN = Inr NaN \<and>
   BotSettings_validate_take_profit NaN = Inr NaN"
  by (simp add: BotSettings_validate_order_size_def BotSettings_validate_stop_loss_def
      BotSettings_validate_take_profit_def float_gt_def)

section \<open>UserData\<close>

lemma validate_model_no_errors:
  "list_all (field_ok conv d) fs \<Longrightarrow> fst (validate_model conv fs d) = []"
  by (induction fs) (auto simp: field_ok_def split: prod.splits option.splits)

lemma validate_model_absent:
  "distinct (map fst fs) \<Longrightarrow> (n, t, Some x) \<in> set fs \<Longrightarrow> d n = None \<Longrightarrow>
     snd (validate_model conv fs d) n = Some x"
proof (induction fs)
  case Nil
  then show ?case by simp
next
  case (Cons f fs)
  obtain n' t' dflt' where f: "f = (n', t', dflt')" by (cases f)
  show ?case
  proof (cases "n' = n")
    case True
    with Cons.prems f have "(n, t, Some x) \<notin> set fs" by force
    with Cons.prems f True have "t' = t" "dflt' = Some x" by auto
    with Cons.prems f True show ?thesis by (simp split: prod.splits)
  next
    case False
    with Cons f show ?thesis by (auto split: prod.splits option.splits)
  qed
qed

lemma UserData_fields_distinct: "distinct (map fst UserData_fields)"
  by (simp add: UserData_fields_def)

text \<open>
  Claim C8. When every declared field of a record is in order and the five optional fields
  \<open>trial_end_date\<close>, \<open>subscription_end_date\<close>, \<open>created_at\<close>, \<open>api_key_encrypted\<close> and
  \<open>api_secret_encrypted\<close> are absent, constructing \<open>UserData\<close> succeeds and each of the
  five is \<open>None\<close> in the result.
\<close>

theorem user_data_absent_optionals:
  assumes "list_all (field_ok conv d) UserData_fields"
    and "d ''trial_end_date'' = None" and "d ''subscription_end_date'' = None"
    and "d ''created_at'' = None" and "d ''api_key_encrypted'' = None"
    and "d ''api_secret_encrypted'' = None"
  shows "\<exists>m. UserData_init conv d = Inr m \<and>
    m ''trial_end_date'' = Some VNone \<and> m ''subscription_end_date'' = Some VNone \<and>
    m ''created_at'' = Some VNone \<and> m ''api_key_encrypted'' = Some VNone \<and>
    m ''api_secret_encrypted'' = Some VNone"
proof -
  let ?r = "validate_model conv UserData_fields d"
  have e: "fst ?r = []"
    using assms(1) by (rule validate_model_no_errors)
  then have i: "UserData_init conv d = Inr (snd ?r)"
    by (cases ?r) (simp add: UserData_init_def)
  have v: "snd ?r n = Some VNone" if "(n, t, Some VNone) \<in> set UserData_fields" "d n = None" for n t
    using UserData_fields_distinct that by (rule validate_model_absent)
  have "snd ?r ''trial_end_date'' = Some VNone"
    by (rule v [of _ "TOptional TDatetime"]) (simp_all add: UserData_fields_def assms)
  moreover have "snd ?r ''subscription_end_date'' = Some VNone"
    by (rule v [of _ "TOptional TDatetime"]) (simp_all add: UserData_fields_def assms)
  moreover have "snd ?r ''created_at'' = Some VNone"
    by (rule v [of _ "TOptional TDatetime"]) (simp_all add: UserData_fields_def assms)
  moreover have "snd ?r ''api_key_encrypted'' = Some VNone"
    by (rule v [of _ "TOptional TStr"]) (simp_all add: UserData_fields_def assms)
  moreover have "snd ?r ''api_secret_encrypted'' = Some VNone"
    by (rule v [of _ "TOptional TStr"]) (simp_all add: UserData_fields_def assms)
  ultimately show ?thesis using i by simp
qed

theorem user_data_absent_optionals_witness:
  "\<exists>m. UserData_init strict_conv example_record = Inr m \<and>
    m ''trial_end_date'' = Some VNone \<and> m ''subscription_end_date'' = Some VNone \<and>
    m ''created_at'' = Some VNone \<and> m ''api_key_encrypted'' = Some VNone \<and>
    m ''api_secret_encrypted'' = Some VNone"
proof (rule user_data_absent_optionals)
  show "list_all (field_ok strict_conv example_record) UserData_fields"
    by (simp add: UserData_fields_def field_ok_def example_record_def)
qed (simp_all add: example_record_def)

lemma UserData_required_field:
  "UserData_init strict_conv (example_record(''uid'' := None)) = Inl [FieldRequired ''uid'']"
  by (simp add: UserData_init_def UserData_fields_def example_record_def)

section \<open>Full names that hold a quote or an ampersand\<close>

lemma in_set_dropWhile: "x \<in> set xs \<Longrightarrow> \<not> P x \<Longrightarrow> x \<in> set (dropWhile P xs)"
  by (induction xs) auto

lemma in_set_strip: "x \<in> set s \<Longrightarrow> \<not> isspace x \<Longrightarrow> x \<in> set (strip s)"
proof -
  assume a: "x \<in> set s" "\<not> isspace x"
  then have "x \<in> set (rev (dropWhile isspace s))"
    by (simp add: in_set_dropWhile)
  with a have "x \<in> set (dropWhile isspace (rev (dropWhile isspace s)))"
    by (rule_tac in_set_dropWhile)
  then show ?thesis by (simp add: strip_def)
qed

lemma escape_has_ampersand:
  "x \<in> set s \<Longrightarrow> x = 39 \<or> x = 38 \<or> x = 34 \<Longrightarrow>
     38 \<in> set (html_escape s) \<and> 5 \<le> length (html_escape s)"
proof (induction s)
  case Nil
  then show ?case by simp
next
  case (Cons a s)
  show ?case
  proof (cases "a = x")
    case True
    with Cons.prems show ?thesis
      by (auto simp: html_escape_Cons str_def)
  next
    case False
    with Cons have "38 \<in> set (html_escape s) \<and> 5 \<le> length (html_escape s)" by simp
    then show ?thesis by (simp add: html_escape_Cons)
  qed
qed

lemma html_escape_plain:
  "\<forall>c \<in> set s. c \<noteq> 38 \<and> c \<noteq> 60 \<and> c \<noteq> 62 \<and> c \<noteq> 34 \<and> c \<noteq> 39 \<Longrightarrow> html_escape s = s"
  by (induction s) (simp_all add: html_escape_Nil html_escape_Cons)

text \<open>
  Claim C9, as stated, says that a full name holding an apostrophe, an ampersand or a double
  quote fails with the error for invalid characters. The length bound is checked first and
  on the escaped text: the 96 characters \<open>O'Brien\<close> followed by 89 times \<open>a\<close> escape to 101
  characters and fail with the error for a name that is too long.
\<close>

theorem full_name_with_quote_counterexample:
  "39 \<in> set (str ''O'Brien'' @ replicate 89 97) \<and>
   length (str ''O'Brien'' @ replicate 89 97) = 96 \<and>
   UserRegister_validate_full_name (str ''O'Brien'' @ replicate 89 97) = Inl NameTooLong \<and>
   UserRegister_validate_full_name (str ''O'Brien'' @ replicate 89 97) \<noteq> Inl InvalidFullName"
proof -
  let ?v = "str ''O'Brien'' @ replicate 89 97"
  have 1: "39 \<in> set ?v" by (simp add: str_def)
  have 2: "length ?v = 96" by (simp add: str_def)
  have "strip ?v = ?v"
    by (rule strip_ends) (simp_all add: str_def isspace_def)
  moreover have "html_escape (replicate 89 97) = replicate 89 97"
    by (rule html_escape_plain) simp
  then have "length (html_escape ?v) = 101"
    by (simp add: html_escape_append html_escape_Cons html_escape_Nil str_def)
  ultimately have 3: "UserRegister_validate_full_name ?v = Inl NameTooLong"
    by (simp add: UserRegister_validate_full_name_def)
  from 1 2 3 show ?thesis by simp
qed

text \<open>
  Claim C9, amended. A full name holding an apostrophe, an ampersand or a double quote is
  always rejected: with the error for a name that is too long when the trimmed and escaped
  text has more than 100 characters, and with the error for invalid characters otherwise,
  the escaped text holding \<open>&\<close>. The apostrophe itself is in the permitted class.
\<close>

theorem full_name_with_quote_rejected:
  assumes "39 \<in> set v \<or> 38 \<in> set v \<or> 34 \<in> set v"
  shows "UserRegister_validate_full_name v =
      (if 100 < length (html_escape (strip v)) then Inl NameTooLong else Inl InvalidFullName) \<and>
    name_char 39"
proof -
  from assms obtain x where x: "x \<in> set v" "x = 39 \<or> x = 38 \<or> x = 34" by blast
  then have "\<not> isspace x" by (auto simp: isspace_def)
  with x have "x \<in> set (strip v)" by (simp add: in_set_strip)
  with x have e: "38 \<in> set (html_escape (strip v))" "5 \<le> length (html_escape (strip v))"
    using escape_has_ampersand by blast+
  have "\<not> name_char 38" by (simp add: class_defs)
  with e have "\<not> re_match (Plus (Atom name_char)) (html_escape (strip v))"
    by (auto simp: re_match_name)
  with e have "UserRegister_validate_full_name v =
      (if 100 < length (html_escape (strip v)) then Inl NameTooLong else Inl InvalidFullName)"
    by (simp add: UserRegister_validate_full_name_def Let_def)
  moreover have "name_char 39" by (simp add: name_char_def)
  ultimately show ?thesis by simp
qed

theorem full_name_with_quote_rejected_witness:
  "UserRegister_validate_full_name (str ''O'Brien'') = Inl InvalidFullName"
proof -
  have 1: "39 \<in> set (str ''O'Brien'') \<or> 38 \<in> set (str ''O'Brien'') \<or> 34 \<in> set (str ''O'Brien'')"
    by (simp add: str_def)
  have 2: "\<not> 100 < length (html_escape (strip (str ''O'Brien'')))"
    by (simp add: strip_def html_escape_Cons html_escape_Nil class_defs)
  from full_name_with_quote_rejected [OF 1] 2 show ?thesis by simp
qed

section \<open>Email addresses\<close>

text \<open>
  The language of the email pattern, character by character: a local part, \<open>@\<close>, a domain,
  a dot and at least two letters.
\<close>

lemma lang_Plus_Atom: "w \<in> lang (Plus (Atom P)) \<longleftrightarrow> w \<noteq> [] \<and> (\<forall>c \<in> set w. P c)"
  using matches_Plus_Atom [of P w] by (simp add: matches_lang)

lemma lang_AtLeast_Atom:
  "w \<in> lang (AtLeast m (Atom P)) \<longleftrightarrow> m \<le> length w \<and> (\<forall>c \<in> set w. P c)"
proof
  assume "w \<in> lang (AtLeast m (Atom P))"
  then show "m \<le> length w \<and> (\<forall>c \<in> set w. P c)"
    by (auto simp: AtLeast_def conc_iff lang_Rep_Atom star_atoms)
next
  assume a: "m \<le> length w \<and> (\<forall>c \<in> set w. P c)"
  have "w = take m w @ drop m w" by simp
  moreover from a have "take m w \<in> lang (Rep m (Atom P))"
    by (auto simp: lang_Rep_Atom dest: in_set_takeD)
  moreover from a have "drop m w \<in> lang (Star (Atom P))"
    by (auto simp: star_atoms dest: in_set_dropD)
  ultimately show "w \<in> lang (AtLeast m (Atom P))"
    unfolding AtLeast_def lang.simps(5) conc_iff by blast
qed

lemma concI: "u \<in> A \<Longrightarrow> v \<in> B \<Longrightarrow> u @ v \<in> conc A B"
  by (auto simp: conc_iff)

lemma lang_Lit: "u \<in> lang (Lit k) \<longleftrightarrow> u = [k]"
  by (auto simp: Lit_def)

lemma email_pattern_lang:
  "s \<in> lang email_pattern \<longleftrightarrow>
     (\<exists>l d t. s = l @ [64] @ d @ [46] @ t \<and>
        l \<noteq> [] \<and> (\<forall>c \<in> set l. email_local_char c) \<and>
        d \<noteq> [] \<and> (\<forall>c \<in> set d. email_domain_char c) \<and>
        2 \<le> length t \<and> (\<forall>c \<in> set t. ascii_letter c))"
proof
  assume "s \<in> lang email_pattern"
  then obtain l r1 where 1: "s = l @ r1" "l \<in> lang (Plus (Atom email_local_char))"
      "r1 \<in> conc (lang (Lit 64)) (conc (lang (Plus (Atom email_domain_char)))
         (conc (lang (Lit 46)) (lang (AtLeast 2 (Atom ascii_letter)))))"
    by (auto simp: email_pattern_def conc_iff [of s])
  then obtain a r2 where 2: "r1 = a @ r2" "a \<in> lang (Lit 64)"
      "r2 \<in> conc (lang (Plus (Atom email_domain_char)))
         (conc (lang (Lit 46)) (lang (AtLeast 2 (Atom ascii_letter))))"
    by (auto simp: conc_iff [of r1])
  then obtain d r3 where 3: "r2 = d @ r3" "d \<in> lang (Plus (Atom email_domain_char))"
      "r3 \<in> conc (lang (Lit 46)) (lang (AtLeast 2 (Atom ascii_letter)))"
    by (auto simp: conc_iff [of r2])
  then obtain b t where 4: "r3 = b @ t" "b \<in> lang (Lit 46)"
      "t \<in> lang (AtLeast 2 (Atom ascii_letter))"
    by (auto simp: conc_iff [of r3])
  from 1 2 3 4 have "s = l @ [64] @ d @ [46] @ t"
    by (simp add: lang_Lit)
  with 1 3 4 show "\<exists>l d t. s = l @ [64] @ d @ [46] @ t \<and>
        l \<noteq> [] \<and> (\<forall>c \<in> set l. email_local_char c) \<and>
        d \<noteq> [] \<and> (\<forall>c \<in> set d. email_domain_char c) \<and>
        2 \<le> length t \<and> (\<forall>c \<in> set t. ascii_letter c)"
    unfolding lang_Plus_Atom lang_AtLeast_Atom by blast
next
  assume "\<exists>l d t. s = l @ [64] @ d @ [46] @ t \<and>
        l \<noteq> [] \<and> (\<forall>c \<in> set l. email_local_char c) \<and>
        d \<noteq> [] \<and> (\<forall>c \<in> set d. email_domain_char c) \<and>
        2 \<le> length t \<and> (\<forall>c \<in> set t. ascii_letter c)"
  then obtain l d t where s: "s = l @ [64] @ d @ [46] @ t"
      and l: "l \<in> lang (Plus (Atom email_local_char))"
      and d: "d \<in> lang (Plus (Atom email_domain_char))"
      and t: "t \<in> lang (AtLeast 2 (Atom ascii_letter))"
    unfolding lang_Plus_Atom lang_AtLeast_Atom by blast
  have "[46] \<in> lang (Lit 46)" "[64] \<in> lang (Lit 64)"
    by (simp_all add: lang_Lit)
  with l d t have "l @ [64] @ d @ [46] @ t \<in> lang email_pattern"
    unfolding email_pattern_def lang.simps(5) by (simp del: append.simps add: concI)
  with s show "s \<in> lang email_pattern" by simp
qed

lemma email_first_char:
  assumes "s \<in> lang email_pattern"
  shows "s \<noteq> [] \<and> email_local_char (hd s)"
proof -
  from assms obtain l r where "s = l @ r" "l \<noteq> []" "\<forall>c \<in> set l. email_local_char c"
    unfolding email_pattern_lang by blast
  then show ?thesis by (cases l) auto
qed

lemma email_last_char:
  assumes "s \<in> lang email_pattern"
  shows "ascii_letter (last s)"
proof -
  from assms obtain p t where "s = p @ t" "2 \<le> length t" "\<forall>c \<in> set t. ascii_letter c"
    unfolding email_pattern_lang by (metis append.assoc)
  then show ?thesis by (cases t rule: rev_cases) auto
qed

lemma space_not_local: "isspace c \<Longrightarrow> \<not> email_local_char c"
  by (auto simp: class_defs)

lemma space_not_letter: "isspace c \<Longrightarrow> \<not> ascii_letter c"
  by (auto simp: class_defs)

text \<open>
  \<open>PasswordReset.validate_email\<close> matches the raw value: it rejects every value that begins
  with a whitespace character and every value that ends with one other than a newline, and
  it accepts an address followed by a newline, which it returns with the newline.
\<close>

lemma PasswordReset_leading_space:
  assumes "isspace c"
  shows "PasswordReset_validate_email lower (c # cs) = Inl InvalidEmailFormat"
proof -
  have 1: "c # cs \<notin> lang email_pattern"
    using email_first_char [of "c # cs"] assms space_not_local by auto
  have 2: "butlast (c # cs) \<notin> lang email_pattern"
  proof (cases cs)
    case Nil
    then show ?thesis using email_first_char [of "[]"] by auto
  next
    case (Cons a as)
    then have "butlast (c # cs) = c # butlast cs" by simp
    then show ?thesis
      using email_first_char [of "c # butlast cs"] assms space_not_local by auto
  qed
  from 1 2 show ?thesis
    by (simp add: PasswordReset_validate_email_def re_match_def matches_lang del: butlast.simps)
qed

lemma PasswordReset_trailing_space:
  assumes "isspace c" and "c \<noteq> 10"
  shows "PasswordReset_validate_email lower (s @ [c]) = Inl InvalidEmailFormat"
proof -
  have "s @ [c] \<notin> lang email_pattern"
    using email_last_char [of "s @ [c]"] assms space_not_letter by auto
  with assms show ?thesis
    by (simp add: PasswordReset_validate_email_def re_match_def matches_lang)
qed

lemma PasswordReset_keeps_newline:
  "PasswordReset_validate_email lower (str ''a@b.co'' @ [10]) = Inr (lower (str ''a@b.co'' @ [10]))"
proof -
  have "str ''a@b.co'' = str ''a'' @ [64] @ str ''b'' @ [46] @ str ''co''"
    by (simp add: str_def)
  moreover have "str ''a'' @ [64] @ str ''b'' @ [46] @ str ''co'' \<in> lang email_pattern"
    unfolding email_pattern_lang by (rule exI [of _ "str ''a''"], rule exI [of _ "str ''b''"],
      rule exI [of _ "str ''co''"]) (simp add: class_defs)
  ultimately have "str ''a@b.co'' \<in> lang email_pattern" by simp
  then show ?thesis
    by (simp add: PasswordReset_validate_email_def re_match_def matches_lang del: matches.simps)
qed

text \<open>
  \<open>UserRegister.validate_email\<close> trims before it matches: an address between whitespace is
  accepted and returned trimmed and lowercased, as far as \<open>str.lower()\<close> lowercases the
  ASCII address and leaves the whitespace around it in place.
\<close>

lemma strip_surrounded:
  assumes "\<forall>c \<in> set a. isspace c" and "\<forall>c \<in> set b. isspace c"
    and "x \<noteq> []" and "\<not> isspace (hd x)" and "\<not> isspace (last x)"
  shows "strip (a @ x @ b) = x"
proof -
  from assms have 1: "dropWhile isspace (a @ x @ b) = x @ b"
    by (cases x) (simp_all add: dropWhile_append2)
  from assms obtain y ys where y: "rev x = y # ys" by (cases "rev x") auto
  from assms have "hd (rev x) = last x" by (simp add: hd_rev)
  with y assms have "\<not> isspace y" by simp
  have "dropWhile isspace (rev b @ rev x) = dropWhile isspace (rev x)"
    using assms(2) by (intro dropWhile_append2) simp
  with y \<open>\<not> isspace y\<close> have 2: "dropWhile isspace (rev b @ rev x) = rev x"
    by simp
  show ?thesis by (simp add: strip_def 1 2)
qed

lemma ascii_lowercase_email:
  assumes "e \<in> lang email_pattern"
  shows "ascii_lowercase e \<in> lang email_pattern"
proof -
  define f where "f = (\<lambda>c::nat. if ascii_upper c then c + 32 else c)"
  have m: "ascii_lowercase u = map f u" for u
    by (simp add: ascii_lowercase_def f_def)
  from assms obtain l d t where e: "e = l @ [64] @ d @ [46] @ t"
      "l \<noteq> []" "\<forall>c \<in> set l. email_local_char c"
      "d \<noteq> []" "\<forall>c \<in> set d. email_domain_char c"
      "2 \<le> length t" "\<forall>c \<in> set t. ascii_letter c"
    unfolding email_pattern_lang by blast
  have low: "email_local_char c \<Longrightarrow> email_local_char (f c)"
      "email_domain_char c \<Longrightarrow> email_domain_char (f c)"
      "ascii_letter c \<Longrightarrow> ascii_letter (f c)" for c
    by (auto simp: f_def class_defs)
  have k: "f 64 = 64" "f 46 = 46"
    by (simp_all add: f_def ascii_upper_def)
  have "map f e = map f l @ [64] @ map f d @ [46] @ map f t"
    by (simp add: e k)
  moreover have "map f l \<noteq> []" "map f d \<noteq> []" "2 \<le> length (map f t)"
    using e by simp_all
  moreover have "\<forall>c \<in> set (map f l). email_local_char c"
      "\<forall>c \<in> set (map f d). email_domain_char c"
      "\<forall>c \<in> set (map f t). ascii_letter c"
    using e low by simp_all
  ultimately have "map f e \<in> lang email_pattern"
    unfolding email_pattern_lang by blast
  then show ?thesis by (simp add: m)
qed

lemma UserRegister_email_trims:
  assumes "e \<in> lang email_pattern"
    and "\<forall>c \<in> set a. isspace c" and "\<forall>c \<in> set b. isspace c"
    and "lower (a @ e @ b) = a @ ascii_lowercase e @ b"
  shows "UserRegister_validate_email lower (a @ e @ b) = Inr (ascii_lowercase e)"
proof -
  let ?x = "ascii_lowercase e"
  have x: "?x \<in> lang email_pattern"
    using assms(1) by (rule ascii_lowercase_email)
  then have "?x \<noteq> []" "\<not> isspace (hd ?x)" "\<not> isspace (last ?x)"
    using email_first_char [of ?x] email_last_char [of ?x] space_not_local space_not_letter
    by auto
  with assms have "strip (a @ ?x @ b) = ?x"
    by (simp add: strip_surrounded)
  with x assms show ?thesis
    by (simp add: UserRegister_validate_email_def re_match_def matches_lang)
qed

lemma UserRegister_email_example:
  "UserRegister_validate_email ascii_lowercase (str '' A@b.Co '') = Inr (str ''a@b.co'')"
proof -
  have e: "str ''A@b.Co'' \<in> lang email_pattern"
    unfolding email_pattern_lang
    by (rule exI [of _ "str ''A''"], rule exI [of _ "str ''b''"], rule exI [of _ "str ''Co''"])
      (simp add: class_defs)
  have "UserRegister_validate_email ascii_lowercase (str '' '' @ str ''A@b.Co'' @ str '' '') =
      Inr (ascii_lowercase (str ''A@b.Co''))"
    using e by (rule UserRegister_email_trims) (simp_all add: ascii_lowercase_def class_defs)
  then show ?thesis
    by (simp add: ascii_lowercase_def class_defs)
qed

text \<open>
  Claim C2. Both \<open>UserRegister.email\<close> and \<open>PasswordReset.email\<close> are to accept a valid
  address surrounded by whitespace and return it trimmed and lowercased. The second does
  not trim: the address \<open>a@b.co\<close> between two spaces is rejected by
  \<open>PasswordReset.validate_email\<close>, whatever \<open>str.lower()\<close> does.
\<close>

theorem password_reset_email_not_trimmed:
  "PasswordReset_validate_email lower (str '' a@b.co '') = Inl InvalidEmailFormat"
proof -
  have "str '' a@b.co '' = 32 # str ''a@b.co ''" by (simp add: str_def)
  moreover have "isspace 32" by (simp add: isspace_def)
  ultimately show ?thesis by (simp add: PasswordReset_leading_space)
qed

end
